theory Spec2Isabelle
  imports Complex_Main
begin

section \<open>Markdown converter: strikethrough preprocessing\<close>





definition startswith :: "string \<Rightarrow> string \<Rightarrow> bool" where
  "startswith s p = (take (length p) s = p)"










section \<open>Remote API client\<close>

subsection \<open>Errors, wire data and the environment\<close>

text \<open>
  Exceptions are values. \<open>WeChatAPIError\<close> is the class of that name; \<open>RequestException\<close>
  stands for \<open>requests.RequestException\<close> where the source lets it escape; \<open>OSError\<close> for a
  failing file operation; \<open>TypeError\<close> for \<open>raise None\<close>.
\<close>

datatype error =
    WeChatAPIError int string
  | RequestException string
  | OSError string
  | TypeError string

datatype json = JStr string | JInt int | JArr "json list" | JObj "(string \<times> json) list"

text \<open>The JSON object of a server reply, by the keys the client reads (\<open>None\<close>: key absent).\<close>

record reply =
  r_errcode :: "int option"
  r_errmsg :: "string option"
  r_access_token :: "string option"
  r_expires_in :: "int option"
  r_url :: "string option"
  r_media_id :: "string option"

text \<open>
  What one call of \<open>requests.get\<close>/\<open>requests.post\<close> yields: \<open>Transport msg\<close> when the call
  itself raises a \<open>RequestException\<close>; otherwise \<open>Http status body\<close>, where \<open>status = Some msg\<close>
  means that \<open>raise_for_status()\<close> raises an \<open>HTTPError\<close> with text \<open>msg\<close>, and \<open>body\<close> is the
  JSON object.
\<close>

datatype response = Transport string | Http "string option" reply

text \<open>The content of the token cache file, with the three keys \<open>save_token\<close> writes.\<close>

record token_data =
  td_access_token :: string
  td_expires_at :: int
  td_appid :: "string option"

datatype event =
    EvExchange
  | EvRequest string string string "json option"
  | EvUpload string string
  | EvClear
  | EvSleep rat

text \<open>
  The environment holds what the program reads from outside and never changes: the account,
  and, for every source of outside input, the sequence of values it delivers (the \<open>k\<close>-th
  reading of the clock, the \<open>k\<close>-th answer of an endpoint, the \<open>k\<close>-th random draw).
\<close>

record env =
  appid :: string
  config_appid :: "string option"
  clock :: "nat \<Rightarrow> rat"
  token_endpoint :: "nat \<Rightarrow> response"
  api_endpoint :: "nat \<Rightarrow> response"
  jitter :: "nat \<Rightarrow> rat"
  readable :: "string \<Rightarrow> bool"

text \<open>
  The mutable state: the two fields of \<open>TokenManager\<close>, the token cache file, how many values
  of each outside sequence have been consumed, and the trace of outside actions performed.
\<close>

record world =
  tm_access_token :: "string option"
  tm_expires_at :: int
  token_file :: "token_data option"
  clock_reads :: nat
  exchanges :: nat
  api_calls :: nat
  draws :: nat
  trace :: "event list"

definition time_time :: "env \<Rightarrow> world \<Rightarrow> rat \<times> world" where
  "time_time E w = (clock E (clock_reads w), w\<lparr>clock_reads := Suc (clock_reads w)\<rparr>)"

definition py_int :: "rat \<Rightarrow> int" where
  "py_int x = (if 0 \<le> x then \<lfloor>x\<rfloor> else \<lceil>x\<rceil>)"

definition get_default :: "'a option \<Rightarrow> 'a \<Rightarrow> 'a" where
  "get_default v d = (case v of Some x \<Rightarrow> x | None \<Rightarrow> d)"

definition network_error :: "string \<Rightarrow> error" where
  "network_error msg = WeChatAPIError (- 1) (''Network error: '' @ msg)"

subsection \<open>Token manager\<close>

text \<open>
  Reading, writing and deleting the token cache file succeed, and the body of every answer is
  a JSON object. \<open>get_token_cached\<close> is \<open>get_token\<close> from the look into the cache file on.
\<close>

definition save_token :: "env \<Rightarrow> string \<Rightarrow> int \<Rightarrow> world \<Rightarrow> world" where
  "save_token E access_token expires_in w =
     (case time_time E w of (t, w1) \<Rightarrow>
        w1\<lparr>token_file := Some \<lparr>td_access_token = access_token,
                                  td_expires_at = py_int t + expires_in - 300,
                                  td_appid = config_appid E\<rparr>\<rparr>)"

definition clear_cache :: "world \<Rightarrow> world" where
  "clear_cache w =
     w\<lparr>tm_access_token := None, tm_expires_at := 0, token_file := None,
       trace := trace w @ [EvClear]\<rparr>"

definition fetch_token :: "env \<Rightarrow> world \<Rightarrow> (error + string) \<times> world" where
  "fetch_token E w =
     (let w1 = w\<lparr>exchanges := Suc (exchanges w), trace := trace w @ [EvExchange]\<rparr> in
      case token_endpoint E (exchanges w) of
        Transport msg \<Rightarrow> (Inl (network_error msg), w1)
      | Http status data \<Rightarrow>
          (case status of
             Some msg \<Rightarrow> (Inl (network_error msg), w1)
           | None \<Rightarrow>
               (case r_access_token data of
                  Some access_token \<Rightarrow>
                    (let expires_in = get_default (r_expires_in data) 7200 in
                     case time_time E w1 of (t, w2) \<Rightarrow>
                       (Inr access_token,
                        save_token E access_token expires_in
                          (w2\<lparr>tm_access_token := Some access_token,
                              tm_expires_at := py_int t + expires_in - 300\<rparr>)))
                | None \<Rightarrow>
                    (Inl (WeChatAPIError (get_default (r_errcode data) (- 1))
                            (get_default (r_errmsg data) ''Unknown error'')), w1))))"

definition get_token_cached :: "env \<Rightarrow> bool \<Rightarrow> world \<Rightarrow> (error + string) \<times> world" where
  "get_token_cached E force_refresh w =
     (if \<not> force_refresh then
        (case token_file w of
           None \<Rightarrow> fetch_token E w
         | Some cached \<Rightarrow>
             if td_appid cached = Some (appid E) then
               (case time_time E w of (t, w1) \<Rightarrow>
                  if t < of_int (td_expires_at cached) then
                    (Inr (td_access_token cached),
                     w1\<lparr>tm_access_token := Some (td_access_token cached),
                        tm_expires_at := td_expires_at cached\<rparr>)
                  else fetch_token E w1)
             else fetch_token E w)
      else fetch_token E w)"

definition get_token :: "env \<Rightarrow> bool \<Rightarrow> world \<Rightarrow> (error + string) \<times> world" where
  "get_token E force_refresh w =
     (case tm_access_token w of
        None \<Rightarrow> get_token_cached E force_refresh w
      | Some access_token \<Rightarrow>
          if \<not> force_refresh \<and> access_token \<noteq> [] then
            (case time_time E w of (t, w1) \<Rightarrow>
               if t < of_int (tm_expires_at w1) then (Inr access_token, w1)
               else get_token_cached E force_refresh w1)
          else get_token_cached E force_refresh w)"


subsection \<open>Requests with the one-shot token refresh\<close>

text \<open>
  One call of \<open>requests.get\<close> or \<open>requests.post\<close> on an API endpoint: it consumes the next
  answer of the API and records the request (method, endpoint, token attached, JSON body).
\<close>

definition http_send ::
  "env \<Rightarrow> string \<Rightarrow> string \<Rightarrow> string \<Rightarrow> json option \<Rightarrow> world \<Rightarrow> response \<times> world" where
  "http_send E method endpoint access_token body w =
     (api_endpoint E (api_calls w),
      w\<lparr>api_calls := Suc (api_calls w),
        trace := trace w @ [EvRequest method endpoint access_token body]\<rparr>)"

definition api_error :: "reply \<Rightarrow> int \<Rightarrow> error" where
  "api_error data errcode = WeChatAPIError errcode (get_default (r_errmsg data) ''Unknown error'')"

definition request ::
  "env \<Rightarrow> string \<Rightarrow> string \<Rightarrow> json option \<Rightarrow> world \<Rightarrow> (error + reply) \<times> world" where
  "request E method endpoint body w =
     (case get_token E False w of
        (Inl e, w1) \<Rightarrow> (Inl e, w1)
      | (Inr access_token, w1) \<Rightarrow>
          (case http_send E method endpoint access_token body w1 of
             (Transport msg, w2) \<Rightarrow> (Inl (network_error msg), w2)
           | (Http (Some msg) data, w2) \<Rightarrow> (Inl (network_error msg), w2)
           | (Http None data, w2) \<Rightarrow>
               (let errcode = get_default (r_errcode data) 0 in
                if errcode \<noteq> 0 then
                  (if errcode = 40001 then
                     (case get_token E False (clear_cache w2) of
                        (Inl e, w3) \<Rightarrow> (Inl e, w3)
                      | (Inr access_token', w3) \<Rightarrow>
                          (case http_send E method endpoint access_token' body w3 of
                             (Transport msg, w4) \<Rightarrow> (Inl (network_error msg), w4)
                           | (Http status data', w4) \<Rightarrow>
                               (let errcode' = get_default (r_errcode data') 0 in
                                if errcode' \<noteq> 0 then (Inl (api_error data' errcode'), w4)
                                else (Inr data', w4))))
                   else (Inl (api_error data errcode), w2))
                else (Inr data, w2))))"

subsection \<open>The retry decorator\<close>

definition random_uniform :: "env \<Rightarrow> world \<Rightarrow> rat \<times> world" where
  "random_uniform E w = (jitter E (draws w), w\<lparr>draws := Suc (draws w)\<rparr>)"

definition time_sleep :: "rat \<Rightarrow> world \<Rightarrow> world" where
  "time_sleep wait_time w = w\<lparr>trace := trace w @ [EvSleep wait_time]\<rparr>"

text \<open>
  The body of the \<open>if\<close> branch of the wrapper that decides to retry: draw the jitter, sleep,
  and clear the token cache when the code is 40001.
\<close>

definition before_retry :: "env \<Rightarrow> rat \<Rightarrow> nat \<Rightarrow> int \<Rightarrow> world \<Rightarrow> world" where
  "before_retry E backoff_factor retry_count errcode w =
     (case random_uniform E w of (u, w1) \<Rightarrow>
        (let wait_time = backoff_factor * 2 ^ retry_count + u;
             w2 = time_sleep wait_time w1
         in if errcode = 40001 then clear_cache w2 else w2))"

text \<open>
  The loop \<open>for retry_count in range(max_retries + 1)\<close> of the wrapper, \<open>max_retries\<close> being a
  natural number, and the \<open>raise last_exception\<close> after it. Waiting times are exact rationals.
\<close>

fun retry_loop ::
  "env \<Rightarrow> nat \<Rightarrow> rat \<Rightarrow> int list \<Rightarrow> (world \<Rightarrow> (error + 'a) \<times> world) \<Rightarrow>
   nat list \<Rightarrow> error option \<Rightarrow> world \<Rightarrow> (error + 'a) \<times> world" where
  "retry_loop E max_retries backoff_factor retryable_errors func [] last_exception w =
     (case last_exception of
        Some e \<Rightarrow> (Inl e, w)
      | None \<Rightarrow> (Inl (TypeError ''exceptions must derive from BaseException''), w))"
| "retry_loop E max_retries backoff_factor retryable_errors func (retry_count # rest) last_exception w =
     (case func w of
        (Inr v, w1) \<Rightarrow> (Inr v, w1)
      | (Inl e, w1) \<Rightarrow>
          (case e of
             WeChatAPIError errcode errmsg \<Rightarrow>
               if errcode \<in> set retryable_errors \<and> retry_count < max_retries then
                 retry_loop E max_retries backoff_factor retryable_errors func rest (Some e)
                   (before_retry E backoff_factor retry_count errcode w1)
               else (Inl e, w1)
           | _ \<Rightarrow> (Inl e, w1)))"

definition retry_on_error ::
  "env \<Rightarrow> nat \<Rightarrow> rat \<Rightarrow> int list \<Rightarrow> (world \<Rightarrow> (error + 'a) \<times> world) \<Rightarrow>
   world \<Rightarrow> (error + 'a) \<times> world" where
  "retry_on_error E max_retries backoff_factor retryable_errors func w =
     retry_loop E max_retries backoff_factor retryable_errors func [0..<max_retries + 1] None w"

subsection \<open>Image upload and draft creation\<close>

definition upload_image_body :: "env \<Rightarrow> string \<Rightarrow> world \<Rightarrow> (error + string) \<times> world" where
  "upload_image_body E image_path w =
     (case get_token E False w of
        (Inl e, w1) \<Rightarrow> (Inl e, w1)
      | (Inr access_token, w1) \<Rightarrow>
          if \<not> readable E image_path then (Inl (OSError image_path), w1)
          else
            (let w2 = w1\<lparr>api_calls := Suc (api_calls w1),
                         trace := trace w1 @ [EvUpload access_token image_path]\<rparr> in
             case api_endpoint E (api_calls w1) of
               Transport msg \<Rightarrow> (Inl (RequestException msg), w2)
             | Http (Some msg) data \<Rightarrow> (Inl (RequestException msg), w2)
             | Http None data \<Rightarrow>
                 (case r_url data of
                    Some url \<Rightarrow> (Inr url, w2)
                  | None \<Rightarrow>
                      (Inl (WeChatAPIError (get_default (r_errcode data) (- 1))
                              (get_default (r_errmsg data) ''Upload failed'')), w2))))"

definition upload_image :: "env \<Rightarrow> string \<Rightarrow> world \<Rightarrow> (error + string) \<times> world" where
  "upload_image E image_path =
     retry_on_error E 3 1 [40001, 42001, 45009] (upload_image_body E image_path)"

record draft =
  title :: string
  content :: string
  author :: string
  digest :: string
  content_source_url :: string
  thumb_media_id :: string
  need_open_comment :: int
  only_fans_can_comment :: int

text \<open>The dictionary \<open>article\<close> of \<open>add_draft\<close>, in insertion order.\<close>

definition draft_article :: "draft \<Rightarrow> (string \<times> json) list" where
  "draft_article d =
     [(''title'', JStr (title d)), (''content'', JStr (content d))]
     @ (if author d \<noteq> [] then [(''author'', JStr (author d))] else [])
     @ (if digest d \<noteq> [] then [(''digest'', JStr (digest d))] else [])
     @ (if content_source_url d \<noteq> []
        then [(''content_source_url'', JStr (content_source_url d))] else [])
     @ (if thumb_media_id d \<noteq> [] then [(''thumb_media_id'', JStr (thumb_media_id d))] else [])
     @ [(''need_open_comment'', JInt (need_open_comment d)),
        (''only_fans_can_comment'', JInt (only_fans_can_comment d))]"

definition draft_payload :: "draft \<Rightarrow> json" where
  "draft_payload d = JObj [(''articles'', JArr [JObj (draft_article d)])]"

definition add_draft_body :: "env \<Rightarrow> draft \<Rightarrow> world \<Rightarrow> (error + string option) \<times> world" where
  "add_draft_body E d w =
     (case request E ''post'' ''/draft/add'' (Some (draft_payload d)) w of
        (Inl e, w1) \<Rightarrow> (Inl e, w1)
      | (Inr result, w1) \<Rightarrow> (Inr (r_media_id result), w1))"

definition add_draft :: "env \<Rightarrow> draft \<Rightarrow> world \<Rightarrow> (error + string option) \<times> world" where
  "add_draft E d = retry_on_error E 3 1 [40001, 42001, 45009] (add_draft_body E d)"

section \<open>HTML documents\<close>

text \<open>
  The tree BeautifulSoup builds with \<open>html.parser\<close>. An attribute value is a string, or a list
  of strings for a multi-valued attribute such as \<open>class\<close>. The parser closes an \<open>img\<close> tag as
  soon as it is opened, so an image never has children: it is the leaf \<open>Img\<close>, and \<open>Element\<close>
  stands for every other tag. Attributes are kept in document order, each key once.
\<close>

datatype attr_value = AStr string | AList "string list"

type_synonym attrs = "(string \<times> attr_value) list"

datatype node = Text string | Img attrs | Element string attrs "node list"

text \<open>Parsing (\<open>BeautifulSoup(html, 'html.parser')\<close>) and printing (\<open>str(soup)\<close>) are the library's.\<close>

record bs4 =
  html_parser :: "string \<Rightarrow> node list"
  to_str :: "node list \<Rightarrow> string"

definition has_key :: "string \<Rightarrow> attrs \<Rightarrow> bool" where
  "has_key k a = (k \<in> fst ` set a)"

definition del_key :: "string \<Rightarrow> attrs \<Rightarrow> attrs" where
  "del_key k a = filter (\<lambda>kv. fst kv \<noteq> k) a"

fun attr_set :: "string \<Rightarrow> attr_value \<Rightarrow> attrs \<Rightarrow> attrs" where
  "attr_set k v [] = [(k, v)]"
| "attr_set k v (kv # rest) = (if fst kv = k then (k, v) # rest else kv # attr_set k v rest)"

subsection \<open>Attribute scrub of the converter\<close>

definition scrub_attrs :: "string \<Rightarrow> attrs \<Rightarrow> attrs" where
  "scrub_attrs name a =
     (let a1 = (if has_key ''id'' a then del_key ''id'' a else a) in
      if has_key ''class'' a1 then (if name \<noteq> ''code'' then del_key ''class'' a1 else a1)
      else a1)"

fun clean_node :: "node \<Rightarrow> node" where
  "clean_node (Text t) = Text t"
| "clean_node (Img a) = Img (scrub_attrs ''img'' a)"
| "clean_node (Element name a children) = Element name (scrub_attrs name a) (map clean_node children)"

definition clean_soup :: "node list \<Rightarrow> node list" where
  "clean_soup soup = map clean_node soup"


section \<open>Image resolver and uploader\<close>

text \<open>
  What \<open>pathlib\<close>, the file system, the download of a remote image and the image compressor
  answer. \<open>file_size\<close> is \<open>stat().st_size\<close> (\<open>None\<close>: it raises); \<open>download_image k url\<close> is
  what the \<open>k\<close>-th call of \<open>_download_image\<close> returns, a temporary path or \<open>None\<close> (the function
  is one HTTP download to a file and maps every exception to \<open>None\<close>); \<open>compress_image\<close> is the
  function of that name in \<open>image_utils\<close>.
\<close>

record files =
  is_absolute :: "string \<Rightarrow> bool"
  path_exists :: "string \<Rightarrow> bool"
  is_file :: "string \<Rightarrow> bool"
  path_parent :: "string \<Rightarrow> string"
  path_join :: "string \<Rightarrow> string \<Rightarrow> string"
  path_resolve :: "string \<Rightarrow> string"
  path_str :: "string \<Rightarrow> string"
  cwd :: string
  file_size :: "string \<Rightarrow> nat option"
  download_image :: "nat \<Rightarrow> string \<Rightarrow> string option"
  compress_image :: "string \<Rightarrow> nat \<Rightarrow> nat \<Rightarrow> string option"

text \<open>The \<open>ImageProcessor\<close> object: its API client, its cache, its settings; and how many
  downloads it has made.\<close>

record image_processor =
  api :: world
  url_cache :: "string \<rightharpoonup> string"
  auto_compress :: bool
  max_width :: nat
  quality :: nat
  downloads :: nat

fun contains :: "string \<Rightarrow> string \<Rightarrow> bool" where
  "contains sub [] = (sub = [])"
| "contains sub (c # cs) = (startswith (c # cs) sub \<or> contains sub cs)"

definition is_url :: "string \<Rightarrow> bool" where
  "is_url src = (startswith src ''http://'' \<or> startswith src ''https://'')"

definition full_path :: "files \<Rightarrow> string \<Rightarrow> string option \<Rightarrow> string" where
  "full_path F src base_path =
     (case base_path of
        None \<Rightarrow> path_join F (cwd F) src
      | Some b \<Rightarrow>
          if b \<noteq> [] then path_join F (if is_file F b then path_parent F b else b) src
          else path_join F (cwd F) src)"

definition resolve_image_path ::
  "files \<Rightarrow> string \<Rightarrow> string option \<Rightarrow> image_processor \<Rightarrow> string option \<times> image_processor" where
  "resolve_image_path F src base_path p =
     (if is_url src then
        (download_image F (downloads p) src, p\<lparr>downloads := Suc (downloads p)\<rparr>)
      else if is_absolute F src then
        (if path_exists F src then (Some (path_str F src), p) else (None, p))
      else if path_exists F (full_path F src base_path) then
        (Some (path_resolve F (full_path F src base_path)), p)
      else (None, p))"

text \<open>Lines 89 to 103: the path to upload, the compressed copy when there is one.\<close>

definition upload_path_for :: "files \<Rightarrow> string \<Rightarrow> image_processor \<Rightarrow> error + string" where
  "upload_path_for F image_path p =
     (if auto_compress p then
        (case file_size F image_path of
           None \<Rightarrow> Inl (OSError image_path)
         | Some fsize \<Rightarrow>
             if fsize > 500 * 1024 then
               (case compress_image F image_path (max_width p) (quality p) of
                  None \<Rightarrow> Inr image_path
                | Some compressed \<Rightarrow>
                    if compressed \<noteq> [] \<and> compressed \<noteq> image_path then
                      (case file_size F compressed of
                         None \<Rightarrow> Inl (OSError compressed)
                       | Some new_size \<Rightarrow> Inr compressed)
                    else Inr image_path)
             else Inr image_path)
      else Inr image_path)"

text \<open>Lines 85 to 107: the hosted URL of a resolved image, from the cache or by upload.\<close>

definition hosted_url ::
  "env \<Rightarrow> files \<Rightarrow> string \<Rightarrow> image_processor \<Rightarrow> (error + string) \<times> image_processor" where
  "hosted_url E F image_path p =
     (case url_cache p image_path of
        Some wechat_url \<Rightarrow> (Inr wechat_url, p)
      | None \<Rightarrow>
          (case upload_path_for F image_path p of
             Inl e \<Rightarrow> (Inl e, p)
           | Inr upload_path \<Rightarrow>
               (case upload_image E upload_path (api p) of
                  (Inl e, w) \<Rightarrow> (Inl e, p\<lparr>api := w\<rparr>)
                | (Inr wechat_url, w) \<Rightarrow>
                    (Inr wechat_url,
                     p\<lparr>api := w, url_cache := (url_cache p)(image_path \<mapsto> wechat_url)\<rparr>))))"

definition src_of :: "attrs \<Rightarrow> string" where
  "src_of img = (case map_of img ''src'' of Some (AStr s) \<Rightarrow> s | _ \<Rightarrow> [])"

text \<open>
  One turn of the loop of \<open>process_html\<close>. The result says what becomes of the tag (\<open>None\<close>:
  removed by \<open>decompose\<close>; \<open>Some a\<close>: kept with attributes \<open>a\<close>), what the turn appends to
  \<open>success_list\<close> and to \<open>fail_list\<close>, and the processor after it.
\<close>

record outcome =
  tag :: "attrs option"
  succeeded :: "string list"
  failed :: "string list"

definition failure :: "bool \<Rightarrow> attrs \<Rightarrow> string \<Rightarrow> outcome" where
  "failure remove_failed img src =
     \<lparr>tag = (if remove_failed then None else Some img), succeeded = [], failed = [src]\<rparr>"

definition process_img ::
  "env \<Rightarrow> files \<Rightarrow> string option \<Rightarrow> bool \<Rightarrow> attrs \<Rightarrow> image_processor \<Rightarrow>
   outcome \<times> image_processor" where
  "process_img E F base_path remove_failed img p =
     (let src = src_of img in
      if src = [] then (\<lparr>tag = Some img, succeeded = [], failed = []\<rparr>, p)
      else if contains ''mmbiz.qpic.cn'' src \<or> contains ''mmbizurl.cn'' src then
        (\<lparr>tag = Some img, succeeded = [], failed = []\<rparr>, p)
      else
        (case resolve_image_path F src base_path p of
           (None, p1) \<Rightarrow> (failure remove_failed img src, p1)
         | (Some image_path, p1) \<Rightarrow>
             if image_path = [] then (failure remove_failed img src, p1)
             else
               (case hosted_url E F image_path p1 of
                  (Inl e, p2) \<Rightarrow> (failure remove_failed img src, p2)
                | (Inr wechat_url, p2) \<Rightarrow>
                    (\<lparr>tag = Some (attr_set ''data-src'' (AStr wechat_url)
                                   (attr_set ''src'' (AStr wechat_url) img)),
                      succeeded = [src], failed = []\<rparr>, p2))))"

fun process_imgs ::
  "env \<Rightarrow> files \<Rightarrow> string option \<Rightarrow> bool \<Rightarrow> attrs list \<Rightarrow> image_processor \<Rightarrow>
   (attrs option list \<times> string list \<times> string list) \<times> image_processor" where
  "process_imgs E F base_path remove_failed [] p = (([], [], []), p)"
| "process_imgs E F base_path remove_failed (img # imgs) p =
     (case process_img E F base_path remove_failed img p of
        (r, p1) \<Rightarrow>
          (case process_imgs E F base_path remove_failed imgs p1 of
             ((tags, success_list, fail_list), p2) \<Rightarrow>
               ((tag r # tags, succeeded r @ success_list, failed r @ fail_list), p2)))"

fun find_all_img :: "node \<Rightarrow> attrs list" where
  "find_all_img (Text t) = []"
| "find_all_img (Img a) = [a]"
| "find_all_img (Element name a children) = concat (map find_all_img children)"

definition find_all_imgs :: "node list \<Rightarrow> attrs list" where
  "find_all_imgs soup = concat (map find_all_img soup)"

text \<open>
  The soup after the loop: the images, met in document order, take the fates decided for
  them in that order.
\<close>

fun edit_node :: "node \<Rightarrow> attrs option list \<Rightarrow> node list \<times> attrs option list"
  and edit_nodes :: "node list \<Rightarrow> attrs option list \<Rightarrow> node list \<times> attrs option list" where
  "edit_node (Text t) tags = ([Text t], tags)"
| "edit_node (Img a) tags =
     (case tags of
        [] \<Rightarrow> ([Img a], [])
      | None # rest \<Rightarrow> ([], rest)
      | Some a' # rest \<Rightarrow> ([Img a'], rest))"
| "edit_node (Element name a children) tags =
     (case edit_nodes children tags of (children', rest) \<Rightarrow> ([Element name a children'], rest))"
| "edit_nodes [] tags = ([], tags)"
| "edit_nodes (x # xs) tags =
     (case edit_node x tags of
        (x', rest) \<Rightarrow> (case edit_nodes xs rest of (xs', rest') \<Rightarrow> (x' @ xs', rest')))"

definition process_soup ::
  "env \<Rightarrow> files \<Rightarrow> node list \<Rightarrow> string option \<Rightarrow> bool \<Rightarrow> image_processor \<Rightarrow>
   (node list \<times> string list \<times> string list) \<times> image_processor" where
  "process_soup E F soup base_path remove_failed p =
     (case process_imgs E F base_path remove_failed (find_all_imgs soup) p of
        ((tags, success_list, fail_list), p1) \<Rightarrow>
          ((fst (edit_nodes soup tags), success_list, fail_list), p1))"

definition process_html ::
  "env \<Rightarrow> files \<Rightarrow> bs4 \<Rightarrow> string \<Rightarrow> string option \<Rightarrow> bool \<Rightarrow> image_processor \<Rightarrow>
   (string \<times> string list \<times> string list) \<times> image_processor" where
  "process_html E F B html base_path remove_failed p =
     (case process_soup E F (html_parser B html) base_path remove_failed p of
        ((soup, success_list, fail_list), p1) \<Rightarrow> ((to_str B soup, success_list, fail_list), p1))"

section \<open>Markdown converter: the conversion pipeline\<close>



















section \<open>Example environments\<close>

definition empty_reply :: reply where
  "empty_reply = \<lparr>r_errcode = None, r_errmsg = None, r_access_token = None,
                   r_expires_in = None, r_url = None, r_media_id = None\<rparr>"

definition token_reply :: "string \<Rightarrow> int \<Rightarrow> response" where
  "token_reply tok ttl = Http None (empty_reply\<lparr>r_access_token := Some tok, r_expires_in := Some ttl\<rparr>)"

definition error_reply :: "int \<Rightarrow> string \<Rightarrow> response" where
  "error_reply code msg = Http None (empty_reply\<lparr>r_errcode := Some code, r_errmsg := Some msg\<rparr>)"

text \<open>
  An account \<open>wx1\<close> whose clock stands at 1000 and whose random draws are all 1/4, against a
  token endpoint and an API that give the same answer to every call.
\<close>

definition example_env :: "response \<Rightarrow> response \<Rightarrow> env" where
  "example_env token_answer api_answer =
     \<lparr>appid = ''wx1'', config_appid = Some ''wx1'', clock = (\<lambda>k. 1000),
      token_endpoint = (\<lambda>k. token_answer), api_endpoint = (\<lambda>k. api_answer),
      jitter = (\<lambda>k. 1 / 4), readable = (\<lambda>p. True)\<rparr>"

text \<open>A client just constructed, with no cache file; and one whose two caches expired at 500.\<close>

definition fresh_world :: world where
  "fresh_world = \<lparr>tm_access_token = None, tm_expires_at = 0, token_file = None,
                   clock_reads = 0, exchanges = 0, api_calls = 0, draws = 0, trace = []\<rparr>"

definition expired_world :: world where
  "expired_world =
     fresh_world\<lparr>tm_access_token := Some ''OLD'', tm_expires_at := 500,
                 token_file := Some \<lparr>td_access_token = ''OLD'', td_expires_at = 500,
                                       td_appid = Some ''wx1''\<rparr>\<rparr>"

definition example_draft :: draft where
  "example_draft = \<lparr>title = ''t'', content = ''<p>c</p>'', author = '''', digest = ''d'',
     content_source_url = '''', thumb_media_id = '''', need_open_comment = 0,
     only_fans_can_comment = 0\<rparr>"

definition example_files :: "(string \<Rightarrow> bool) \<Rightarrow> files" where
  "example_files present =
     \<lparr>is_absolute = (\<lambda>path. startswith path ''/''), path_exists = present,
      is_file = (\<lambda>path. False), path_parent = (\<lambda>path. path),
      path_join = (\<lambda>a b. a @ ''/'' @ b), path_resolve = (\<lambda>path. path),
      path_str = (\<lambda>path. path), cwd = ''/work'', file_size = (\<lambda>path. Some 1000),
      download_image = (\<lambda>k url. None), compress_image = (\<lambda>path w q. Some path)\<rparr>"

definition example_processor :: image_processor where
  "example_processor =
     \<lparr>api = fresh_world, url_cache = Map.empty, auto_compress = True, max_width = 1080,
      quality = 85, downloads = 0\<rparr>"

definition example_soup :: "node list" where
  "example_soup =
     [Element ''p'' []
        [Img [(''src'', AStr ''a.png''), (''alt'', AStr ''x'')], Text ''t'',
         Img [(''alt'', AStr ''no source'')]]]"



section \<open>Notions used in the statements\<close>

text \<open>The next credential exchange grants the token \<open>tok\<close>.\<close>

definition granted :: "env \<Rightarrow> world \<Rightarrow> string \<Rightarrow> bool" where
  "granted E w tok =
     (\<exists>data. token_endpoint E (exchanges w) = Http None data \<and> r_access_token data = Some tok)"




text \<open>
  What holds of a token that \<open>get_token\<close> has just fetched, the call taking the world from
  \<open>w\<close> to \<open>w'\<close>: the exchange granted it; the clock was read twice, first for the in-memory
  \<open>expires_at\<close> and then for the one in the cache file; and the reading at the fetch is before
  the in-memory \<open>expires_at\<close> when the reported lifetime is more than 300 seconds.
\<close>

definition fresh_expiry :: "env \<Rightarrow> world \<Rightarrow> world \<Rightarrow> string \<Rightarrow> bool" where
  "fresh_expiry E w w' tok =
     (\<exists>data n. clock_reads w \<le> n \<and> clock_reads w' = n + 2 \<and>
        token_endpoint E (exchanges w) = Http None data \<and> r_access_token data = Some tok \<and>
        tm_expires_at w' = py_int (clock E n) + get_default (r_expires_in data) 7200 - 300 \<and>
        token_file w' =
          Some \<lparr>td_access_token = tok,
                td_expires_at = py_int (clock E (Suc n)) + get_default (r_expires_in data) 7200 - 300,
                td_appid = config_appid E\<rparr> \<and>
        (300 < get_default (r_expires_in data) 7200 \<longrightarrow>
           clock E n < of_int (tm_expires_at w')))"

text \<open>
  What holds of any token \<open>get_token\<close> returns: it is the in-memory token; and either no
  exchange was made and the last clock reading of the call is before the in-memory
  \<open>expires_at\<close>, or the token was fetched.
\<close>

definition token_result_ok :: "env \<Rightarrow> world \<Rightarrow> world \<Rightarrow> string \<Rightarrow> bool" where
  "token_result_ok E w w' tok =
     (tm_access_token w' = Some tok \<and>
      (if exchanges w' = exchanges w
       then \<exists>n. clock_reads w \<le> n \<and> clock_reads w' = Suc n \<and>
                clock E n < of_int (tm_expires_at w')
       else fresh_expiry E w w' tok))"

text \<open>
  The wrapper retries after the result \<open>r\<close> of attempt \<open>retry_count\<close>; and the world in which
  attempt \<open>k\<close> starts when the attempts before it were retried.
\<close>

definition retried :: "nat \<Rightarrow> int list \<Rightarrow> nat \<Rightarrow> (error + 'a) \<Rightarrow> bool" where
  "retried max_retries retryable_errors retry_count r =
     (case r of
        Inl (WeChatAPIError errcode errmsg) \<Rightarrow>
          errcode \<in> set retryable_errors \<and> retry_count < max_retries
      | _ \<Rightarrow> False)"

fun attempt_world ::
  "env \<Rightarrow> rat \<Rightarrow> (world \<Rightarrow> (error + 'a) \<times> world) \<Rightarrow> nat \<Rightarrow> world \<Rightarrow> world" where
  "attempt_world E backoff_factor func 0 w = w"
| "attempt_world E backoff_factor func (Suc k) w =
     (case func (attempt_world E backoff_factor func k w) of
        (Inl (WeChatAPIError errcode errmsg), w1) \<Rightarrow> before_retry E backoff_factor k errcode w1
      | (r, w1) \<Rightarrow> w1)"

text \<open>What \<open>_request\<close> makes of the answer to the request it has sent again.\<close>

definition second_outcome :: "response \<Rightarrow> error + reply" where
  "second_outcome resp =
     (case resp of
        Transport msg \<Rightarrow> Inl (network_error msg)
      | Http status data \<Rightarrow>
          if get_default (r_errcode data) 0 \<noteq> 0
          then Inl (api_error data (get_default (r_errcode data) 0))
          else Inr data)"


text \<open>
  All tags of a soup with their attributes, in document order; and whether the \<open>class\<close>
  attribute holds a class that starts with \<open>language-\<close>, as \<open>_process_code_blocks\<close> looks
  for it.
\<close>

fun tags_of :: "node \<Rightarrow> (string \<times> attrs) list" where
  "tags_of (Text t) = []"
| "tags_of (Img a) = [(''img'', a)]"
| "tags_of (Element name a children) = (name, a) # concat (map tags_of children)"

definition all_tags :: "node list \<Rightarrow> (string \<times> attrs) list" where
  "all_tags soup = concat (map tags_of soup)"

definition carries_language_class :: "attrs \<Rightarrow> bool" where
  "carries_language_class a =
     (case map_of a ''class'' of
        Some (AList classes) \<Rightarrow> list_ex (\<lambda>cls. startswith cls ''language-'') classes
      | _ \<Rightarrow> False)"

text \<open>
  The images that stay; a source the loop does not skip; a source that is no URL and names
  no existing file, absolute or relative to the base path.
\<close>

definition kept :: "attrs option list \<Rightarrow> attrs list" where
  "kept tags = concat (map (\<lambda>t. case t of None \<Rightarrow> [] | Some a \<Rightarrow> [a]) tags)"

definition uploadable :: "string \<Rightarrow> bool" where
  "uploadable src = (src \<noteq> [] \<and> \<not> contains ''mmbiz.qpic.cn'' src \<and> \<not> contains ''mmbizurl.cn'' src)"

definition missing_locally :: "files \<Rightarrow> string \<Rightarrow> string option \<Rightarrow> bool" where
  "missing_locally F src base_path =
     (\<not> is_url src \<and>
      (if is_absolute F src then \<not> path_exists F src
       else \<not> path_exists F (full_path F src base_path)))"

section \<open>Verified properties\<close>

subsection \<open>Strikethrough preprocessing\<close>


















subsection \<open>Token manager: refresh of a stale token\<close>

lemma fetch_token_exchanges: "exchanges (snd (fetch_token E w)) = Suc (exchanges w)"
  by (simp add: fetch_token_def save_token_def time_time_def Let_def
      split: response.splits option.splits)

lemma fetch_token_trace: "trace (snd (fetch_token E w)) = trace w @ [EvExchange]"
  by (simp add: fetch_token_def save_token_def time_time_def Let_def
      split: response.splits option.splits)

lemma fetch_token_result:
  "(fst (fetch_token E w) = Inr tok) = granted E w tok"
  by (auto simp: fetch_token_def granted_def Let_def time_time_def
      split: response.splits option.splits)





subsection \<open>Token manager: expiry of returned tokens\<close>

lemma py_int_gt: "x < of_int (py_int x) + 1"
  unfolding py_int_def by (cases "0 \<le> x") (simp_all, linarith+)

lemma py_int_margin: "300 < ttl \<Longrightarrow> x < of_int (py_int x + ttl - 300)"
proof -
  assume "300 < ttl"
  then have "(1::rat) \<le> of_int (ttl - 300)" by simp
  then have "of_int (py_int x) + (1::rat) \<le> of_int (py_int x + ttl - 300)" by simp
  with py_int_gt[of x] show ?thesis by linarith
qed

lemma fetch_token_success:
  assumes "fetch_token E w = (Inr tok, w')"
  shows "\<exists>data. token_endpoint E (exchanges w) = Http None data \<and> r_access_token data = Some tok \<and>
           exchanges w' = Suc (exchanges w) \<and> clock_reads w' = clock_reads w + 2 \<and>
           tm_access_token w' = Some tok \<and>
           tm_expires_at w' =
             py_int (clock E (clock_reads w)) + get_default (r_expires_in data) 7200 - 300 \<and>
           token_file w' =
             Some \<lparr>td_access_token = tok,
                   td_expires_at = py_int (clock E (Suc (clock_reads w)))
                                    + get_default (r_expires_in data) 7200 - 300,
                   td_appid = config_appid E\<rparr>"
  using assms
  by (auto simp: fetch_token_def save_token_def time_time_def Let_def
      split: response.splits option.splits)

lemma fetch_token_ok:
  assumes "fetch_token E w1 = (Inr tok, w')" "exchanges w1 = exchanges w"
    "clock_reads w \<le> clock_reads w1"
  shows "token_result_ok E w w' tok"
proof -
  from fetch_token_success[OF assms(1)] obtain data where
    d: "token_endpoint E (exchanges w1) = Http None data" "r_access_token data = Some tok"
       "exchanges w' = Suc (exchanges w1)" "clock_reads w' = clock_reads w1 + 2"
       "tm_access_token w' = Some tok"
       "tm_expires_at w' =
             py_int (clock E (clock_reads w1)) + get_default (r_expires_in data) 7200 - 300"
       "token_file w' =
             Some \<lparr>td_access_token = tok,
                   td_expires_at = py_int (clock E (Suc (clock_reads w1)))
                                    + get_default (r_expires_in data) 7200 - 300,
                   td_appid = config_appid E\<rparr>"
    by blast
  have m: "300 < get_default (r_expires_in data) 7200 \<longrightarrow>
           clock E (clock_reads w1) < of_int (tm_expires_at w')"
    using py_int_margin[of "get_default (r_expires_in data) 7200" "clock E (clock_reads w1)"] d(6)
    by simp
  have "fresh_expiry E w w' tok"
    unfolding fresh_expiry_def using d m assms(2,3)
    by (intro exI[of _ data] exI[of _ "clock_reads w1"]) simp
  with d assms(2) show ?thesis by (simp add: token_result_ok_def)
qed

lemma get_token_cached_ok:
  assumes "get_token_cached E force_refresh w1 = (Inr tok, w')" "exchanges w1 = exchanges w"
    "clock_reads w \<le> clock_reads w1"
  shows "token_result_ok E w w' tok"
proof -
  consider (hit) cached where "\<not> force_refresh" "token_file w1 = Some cached"
      "td_appid cached = Some (appid E)" "clock E (clock_reads w1) < of_int (td_expires_at cached)"
    | (miss) n where "clock_reads w1 \<le> n"
      "get_token_cached E force_refresh w1 = fetch_token E (w1\<lparr>clock_reads := n\<rparr>)"
  proof (cases "\<not> force_refresh \<and> (\<exists>cached. token_file w1 = Some cached \<and>
      td_appid cached = Some (appid E) \<and> clock E (clock_reads w1) < of_int (td_expires_at cached))")
    case True
    then show ?thesis using hit by blast
  next
    case False
    have "get_token_cached E force_refresh w1 = fetch_token E (w1\<lparr>clock_reads := clock_reads w1\<rparr>) \<or>
          get_token_cached E force_refresh w1 = fetch_token E (w1\<lparr>clock_reads := Suc (clock_reads w1)\<rparr>)"
      using False by (auto simp: get_token_cached_def time_time_def split: option.splits)
    then show ?thesis using miss[of "clock_reads w1"] miss[of "Suc (clock_reads w1)"] by auto
  qed
  then show ?thesis
  proof cases
    case hit
    with assms(1) have "w' = w1\<lparr>clock_reads := Suc (clock_reads w1),
        tm_access_token := Some (td_access_token cached), tm_expires_at := td_expires_at cached\<rparr>"
      "tok = td_access_token cached"
      by (auto simp: get_token_cached_def time_time_def)
    with hit assms(2,3) show ?thesis
      by (simp add: token_result_ok_def)
  next
    case miss
    with assms(1) have "fetch_token E (w1\<lparr>clock_reads := n\<rparr>) = (Inr tok, w')" by simp
    from fetch_token_ok[OF this, of w] assms(2,3) miss(1) show ?thesis by simp
  qed
qed

text \<open>
  Claim C7, amended. Let \<open>get_token\<close> return a token. The in-memory token is then that token.
  If it was served from a cache (no exchange happened), the clock was read during the call and
  the last reading is before the in-memory \<open>expires_at\<close>. If it was fetched, the in-memory
  \<open>expires_at\<close> is the integer part of the clock reading taken at the fetch plus the lifetime
  the server reported (7200 when it reports none) minus 300, the cache file holds the same
  token with \<open>expires_at\<close> computed the same way from its own clock reading, and the token
  is handed out without any comparison: the reading at the fetch is before \<open>expires_at\<close>
  whenever the reported lifetime exceeds 300.
\<close>

theorem get_token_expiry:
  assumes "get_token E force_refresh w = (Inr tok, w')"
  shows "token_result_ok E w w' tok"
proof -
  consider (hit) "\<not> force_refresh" "tm_access_token w = Some tok" "tok \<noteq> []"
      "clock E (clock_reads w) < of_int (tm_expires_at w)"
      "w' = w\<lparr>clock_reads := Suc (clock_reads w)\<rparr>"
    | (later) "get_token_cached E force_refresh (w\<lparr>clock_reads := Suc (clock_reads w)\<rparr>) = (Inr tok, w')"
    | (direct) "get_token_cached E force_refresh w = (Inr tok, w')"
    using assms
    by (auto simp: get_token_def time_time_def split: option.splits if_splits)
  then show ?thesis
  proof cases
    case hit
    then show ?thesis
      by (simp add: token_result_ok_def)
  next
    case later
    from get_token_cached_ok[OF later, of w] show ?thesis by simp
  next
    case direct
    from get_token_cached_ok[OF direct, of w] show ?thesis by simp
  qed
qed

subsection \<open>Retry policy\<close>

lemma retried_cases:
  assumes "retried mr re i (fst (func w))"
  obtains c m w1 where "func w = (Inl (WeChatAPIError c m), w1)" "c \<in> set re" "i < mr"
proof -
  obtain r w1 where f: "func w = (r, w1)" by (cases "func w")
  with assms obtain c m where "r = Inl (WeChatAPIError c m)" "c \<in> set re" "i < mr"
    by (auto simp: retried_def split: sum.splits error.splits)
  with f that show ?thesis by blast
qed

lemma retry_loop_stop:
  assumes "\<not> retried mr re k (fst (func w))"
  shows "retry_loop E mr bf re func (k # rest) lastex w = func w"
proof -
  obtain r w1 where f: "func w = (r, w1)" by (cases "func w")
  with assms show ?thesis
    by (auto simp: retried_def split: sum.splits error.splits)
qed

lemma retry_loop_run:
  assumes "k \<le> mr"
    and "\<forall>i. j \<le> i \<and> i < k \<longrightarrow> retried mr re i (fst (func (attempt_world E bf func i w)))"
    and "\<not> retried mr re k (fst (func (attempt_world E bf func k w)))"
    and "j \<le> k"
  shows "retry_loop E mr bf re func [j..<Suc mr] lastex (attempt_world E bf func j w) =
         func (attempt_world E bf func k w)"
  using assms(2,4)
proof (induction "k - j" arbitrary: j lastex)
  case 0
  then have jk: "j = k" by simp
  have up0: "[k..<Suc mr] = k # [Suc k..<Suc mr]" using assms(1) by (simp add: upt_conv_Cons)
  have "retry_loop E mr bf re func (k # [Suc k..<Suc mr]) lastex (attempt_world E bf func k w) =
        func (attempt_world E bf func k w)"
    using assms(3) by (rule retry_loop_stop)
  then show ?case unfolding jk up0 .
next
  case (Suc d)
  then have lt: "j < k" by simp
  with Suc.prems have "retried mr re j (fst (func (attempt_world E bf func j w)))" by simp
  then obtain c m w1 where
    f: "func (attempt_world E bf func j w) = (Inl (WeChatAPIError c m), w1)"
    "c \<in> set re" "j < mr" by (rule retried_cases)
  have up: "[j..<Suc mr] = j # [Suc j..<Suc mr]" using f(3) by (simp add: upt_conv_Cons)
  have nx: "attempt_world E bf func (Suc j) w = before_retry E bf j c w1" using f(1) by simp
  have d: "d = k - Suc j" using Suc.hyps(2) by simp
  have ih: "retry_loop E mr bf re func [Suc j..<Suc mr] (Some (WeChatAPIError c m))
              (attempt_world E bf func (Suc j) w) = func (attempt_world E bf func k w)"
    using Suc.hyps(1)[OF d] Suc.prems lt by simp
  show ?case unfolding up using f ih nx by (simp del: upt_Suc)
qed

lemma before_retry_trace:
  "trace (before_retry E bf i c w) =
     trace w @ EvSleep (bf * 2 ^ i + jitter E (draws w)) # (if c = 40001 then [EvClear] else [])"
  by (simp add: before_retry_def random_uniform_def time_sleep_def clear_cache_def Let_def)

text \<open>
  Claim C5. Let attempt \<open>i\<close> of the wrapped operation start in \<open>attempt_world \<dots> i w\<close>. If the
  attempts before the \<open>k\<close>-th all fail with a \<open>WeChatAPIError\<close> whose code is on the whitelist
  (and so are retried, \<open>k\<close> being at most the maximum), and attempt \<open>k\<close> is not retried (it
  succeeds, or fails with a code off the whitelist or with another exception, or \<open>k\<close> is the
  maximum), then the wrapper returns exactly what attempt \<open>k\<close> returns, in the state attempt
  \<open>k\<close> leaves: nothing is slept or called after it. Between attempt \<open>i\<close> and attempt
  \<open>i + 1\<close> the wrapper sleeps once, for \<open>backoff_factor * 2 ^ i\<close> plus the random draw, and
  clears the token cache when the code is 40001.
\<close>

theorem retry_on_error_policy:
  assumes "k \<le> max_retries"
    and "\<forall>i<k. retried max_retries retryable_errors i
                  (fst (func (attempt_world E backoff_factor func i w)))"
    and "\<not> retried max_retries retryable_errors k
             (fst (func (attempt_world E backoff_factor func k w)))"
  shows "retry_on_error E max_retries backoff_factor retryable_errors func w =
           func (attempt_world E backoff_factor func k w) \<and>
         (\<forall>i<k. \<exists>errcode errmsg w1.
            func (attempt_world E backoff_factor func i w) =
              (Inl (WeChatAPIError errcode errmsg), w1) \<and>
            errcode \<in> set retryable_errors \<and>
            trace (attempt_world E backoff_factor func (Suc i) w) =
              trace w1 @ EvSleep (backoff_factor * 2 ^ i + jitter E (draws w1))
                       # (if errcode = 40001 then [EvClear] else []))"
proof -
  have run: "retry_on_error E max_retries backoff_factor retryable_errors func w =
           func (attempt_world E backoff_factor func k w)"
    unfolding retry_on_error_def
    using retry_loop_run[where k=k and mr=max_retries and j=0 and re=retryable_errors
        and func=func and E=E and bf=backoff_factor and w=w and lastex=None] assms
    by (simp del: upt_Suc)
  have waits: "\<exists>errcode errmsg w1.
            func (attempt_world E backoff_factor func i w) =
              (Inl (WeChatAPIError errcode errmsg), w1) \<and>
            errcode \<in> set retryable_errors \<and>
            trace (attempt_world E backoff_factor func (Suc i) w) =
              trace w1 @ EvSleep (backoff_factor * 2 ^ i + jitter E (draws w1))
                       # (if errcode = 40001 then [EvClear] else [])" if "i < k" for i
  proof -
    from assms(2) that have
      "retried max_retries retryable_errors i (fst (func (attempt_world E backoff_factor func i w)))"
      by simp
    then obtain c m w1 where
      f: "func (attempt_world E backoff_factor func i w) = (Inl (WeChatAPIError c m), w1)"
      "c \<in> set retryable_errors" by (rule retried_cases)
    then show ?thesis by (simp add: before_retry_trace)
  qed
  from run waits show ?thesis by blast
qed

subsection \<open>One-shot token refresh and draft payload\<close>

lemma fetch_token_api_calls: "api_calls (snd (fetch_token E w)) = api_calls w"
  by (simp add: fetch_token_def save_token_def time_time_def Let_def
      split: response.splits option.splits)

lemma get_token_cleared: "get_token E False (clear_cache w) = fetch_token E (clear_cache w)"
  by (simp add: get_token_def get_token_cached_def clear_cache_def)

lemma second_outcome_send:
  "(case http_send E method endpoint tok' body w3 of
      (Transport msg, w4) \<Rightarrow> (Inl (network_error msg), w4)
    | (Http status data', w4) \<Rightarrow>
        (let errcode' = get_default (r_errcode data') 0 in
         if errcode' \<noteq> 0 then (Inl (api_error data' errcode'), w4) else (Inr data', w4))) =
   (second_outcome (api_endpoint E (api_calls w3)), snd (http_send E method endpoint tok' body w3))"
  by (cases "api_endpoint E (api_calls w3)") (simp_all add: http_send_def second_outcome_def Let_def)

lemma request_refresh_step:
  assumes "get_token E False w = (Inr tok, w1)"
    and "api_endpoint E (api_calls w1) = Http None data"
    and "r_errcode data = Some 40001"
  shows "request E method endpoint body w =
     (case fetch_token E (clear_cache (snd (http_send E method endpoint tok body w1))) of
        (Inl e, w3) \<Rightarrow> (Inl e, w3)
      | (Inr tok', w3) \<Rightarrow>
          (second_outcome (api_endpoint E (api_calls w3)),
           snd (http_send E method endpoint tok' body w3)))"
proof -
  define w2 where "w2 = snd (http_send E method endpoint tok body w1)"
  have s1: "http_send E method endpoint tok body w1 = (Http None data, w2)"
    using assms(2) by (simp add: http_send_def w2_def)
  have ec: "get_default (r_errcode data) 0 = 40001" using assms(3) by (simp add: get_default_def)
  obtain r3 w3 where f: "fetch_token E (clear_cache w2) = (r3, w3)"
    by (cases "fetch_token E (clear_cache w2)")
  have "request E method endpoint body w =
     (case r3 of
        Inl e \<Rightarrow> (Inl e, w3)
      | Inr tok' \<Rightarrow>
         (case http_send E method endpoint tok' body w3 of
            (Transport msg, w4) \<Rightarrow> (Inl (network_error msg), w4)
          | (Http status data', w4) \<Rightarrow>
             (let errcode' = get_default (r_errcode data') 0 in
              if errcode' \<noteq> 0 then (Inl (api_error data' errcode'), w4) else (Inr data', w4))))"
    unfolding request_def assms(1) prod.case sum.case s1 response.case option.case
    by (cases r3) (simp_all add: ec get_token_cleared f)
  then show ?thesis
    unfolding w2_def[symmetric] f prod.case by (cases r3) (simp_all add: second_outcome_send)
qed

text \<open>
  Claim C2, amended. It is \<open>_request\<close> that has the one-shot refresh. When a call of
  \<open>_request\<close> has obtained a token and the first answer carries code 40001, it clears the
  token cache once and performs one credential exchange. If the exchange grants a token, the
  same request is sent exactly once more with that token, and the call returns the data or
  raises according to this second answer alone. If the exchange grants none, nothing more is
  sent and the call raises. (\<open>add_draft\<close> runs \<open>_request\<close> inside the retry wrapper, whose
  whitelist holds 40001, so its attempts are repeated; \<open>upload_image\<close> does not go through
  \<open>_request\<close> and is retried by the wrapper only.)
\<close>

theorem request_refreshes_once:
  assumes "get_token E False w = (Inr tok, w1)"
    and "api_endpoint E (api_calls w1) = Http None data"
    and "r_errcode data = Some 40001"
  shows "exchanges (snd (request E method endpoint body w)) = Suc (exchanges w1) \<and>
         (\<forall>tok'. granted E w1 tok' \<longrightarrow>
            trace (snd (request E method endpoint body w)) =
              trace w1 @ [EvRequest method endpoint tok body, EvClear, EvExchange,
                          EvRequest method endpoint tok' body] \<and>
            api_calls (snd (request E method endpoint body w)) = api_calls w1 + 2 \<and>
            fst (request E method endpoint body w) =
              second_outcome (api_endpoint E (Suc (api_calls w1)))) \<and>
         ((\<forall>tok'. \<not> granted E w1 tok') \<longrightarrow>
            trace (snd (request E method endpoint body w)) =
              trace w1 @ [EvRequest method endpoint tok body, EvClear, EvExchange] \<and>
            api_calls (snd (request E method endpoint body w)) = Suc (api_calls w1) \<and>
            (\<exists>e. fst (request E method endpoint body w) = Inl e))"
proof -
  let ?w2 = "clear_cache (snd (http_send E method endpoint tok body w1))"
  have step: "request E method endpoint body w =
     (case fetch_token E ?w2 of
        (Inl e, w3) \<Rightarrow> (Inl e, w3)
      | (Inr tok', w3) \<Rightarrow>
          (second_outcome (api_endpoint E (api_calls w3)),
           snd (http_send E method endpoint tok' body w3)))"
    using assms by (rule request_refresh_step)
  have w2: "exchanges ?w2 = exchanges w1" "api_calls ?w2 = Suc (api_calls w1)"
    "trace ?w2 = trace w1 @ [EvRequest method endpoint tok body, EvClear]"
    by (simp_all add: clear_cache_def http_send_def)
  obtain r3 w3 where f: "fetch_token E ?w2 = (r3, w3)" by (cases "fetch_token E ?w2")
  have w3: "exchanges w3 = Suc (exchanges w1)" "api_calls w3 = Suc (api_calls w1)"
    "trace w3 = trace w1 @ [EvRequest method endpoint tok body, EvClear, EvExchange]"
    using fetch_token_exchanges[of E ?w2] fetch_token_api_calls[of E ?w2]
      fetch_token_trace[of E ?w2] f w2 by simp_all
  have g: "\<And>tok'. (r3 = Inr tok') = granted E w1 tok'"
    using fetch_token_result[of E ?w2] f w2(1) by (simp add: granted_def)
  show ?thesis
  proof (cases r3)
    case (Inl e)
    with g have "\<And>tok'. \<not> granted E w1 tok'" by auto
    moreover from step f Inl have "request E method endpoint body w = (Inl e, w3)" by simp
    ultimately show ?thesis using w3 by simp
  next
    case (Inr tok')
    with g have gr: "granted E w1 tok'" by auto
    have uniq: "t = tok'" if "granted E w1 t" for t
      using g[of t] that Inr by simp
    from step f Inr have req: "request E method endpoint body w =
        (second_outcome (api_endpoint E (api_calls w3)),
         snd (http_send E method endpoint tok' body w3))" by simp
    have x: "exchanges (snd (request E method endpoint body w)) = Suc (exchanges w1)"
      unfolding req using w3 by (simp add: http_send_def)
    have t: "trace (snd (request E method endpoint body w)) =
              trace w1 @ [EvRequest method endpoint tok body, EvClear, EvExchange,
                          EvRequest method endpoint tok' body]"
      unfolding req using w3 by (simp add: http_send_def)
    have a: "api_calls (snd (request E method endpoint body w)) = api_calls w1 + 2"
      unfolding req using w3 by (simp add: http_send_def)
    have r: "fst (request E method endpoint body w) =
              second_outcome (api_endpoint E (Suc (api_calls w1)))"
      unfolding req using w3 by simp
    have yes: "\<forall>t'. granted E w1 t' \<longrightarrow>
            trace (snd (request E method endpoint body w)) =
              trace w1 @ [EvRequest method endpoint tok body, EvClear, EvExchange,
                          EvRequest method endpoint t' body] \<and>
            api_calls (snd (request E method endpoint body w)) = api_calls w1 + 2 \<and>
            fst (request E method endpoint body w) =
              second_outcome (api_endpoint E (Suc (api_calls w1)))"
    proof (intro allI impI)
      fix t' assume "granted E w1 t'"
      then have "t' = tok'" by (rule uniq)
      with t a r show "trace (snd (request E method endpoint body w)) =
              trace w1 @ [EvRequest method endpoint tok body, EvClear, EvExchange,
                          EvRequest method endpoint t' body] \<and>
            api_calls (snd (request E method endpoint body w)) = api_calls w1 + 2 \<and>
            fst (request E method endpoint body w) =
              second_outcome (api_endpoint E (Suc (api_calls w1)))" by simp
    qed
    have no: "\<not> (\<forall>t'. \<not> granted E w1 t')" using gr by blast
    from x yes no show ?thesis by blast
  qed
qed

lemma fetch_token_trace_ext: "\<exists>es. trace (snd (fetch_token E w)) = trace w @ es"
  using fetch_token_trace by blast

lemma get_token_cached_trace_ext: "\<exists>es. trace (snd (get_token_cached E f w)) = trace w @ es"
proof -
  have "get_token_cached E f w = fetch_token E w \<or>
        get_token_cached E f w = fetch_token E (w\<lparr>clock_reads := Suc (clock_reads w)\<rparr>) \<or>
        trace (snd (get_token_cached E f w)) = trace w"
    by (auto simp: get_token_cached_def time_time_def split: option.splits)
  then show ?thesis
    using fetch_token_trace[of E w] fetch_token_trace[of E "w\<lparr>clock_reads := Suc (clock_reads w)\<rparr>"]
    by auto
qed

lemma get_token_trace_ext: "\<exists>es. trace (snd (get_token E f w)) = trace w @ es"
proof -
  have "get_token E f w = get_token_cached E f w \<or>
        get_token E f w = get_token_cached E f (w\<lparr>clock_reads := Suc (clock_reads w)\<rparr>) \<or>
        trace (snd (get_token E f w)) = trace w"
    by (auto simp: get_token_def time_time_def split: option.splits)
  then show ?thesis
    using get_token_cached_trace_ext[of E f w]
      get_token_cached_trace_ext[of E f "w\<lparr>clock_reads := Suc (clock_reads w)\<rparr>"]
    by auto
qed

lemma request_sends_body:
  assumes "get_token E False w = (Inr tok, w1)"
  shows "\<exists>es. trace (snd (request E method endpoint body w)) =
           trace w1 @ EvRequest method endpoint tok body # es"
proof -
  define w2 where "w2 = snd (http_send E method endpoint tok body w1)"
  define resp where "resp = api_endpoint E (api_calls w1)"
  have s1: "http_send E method endpoint tok body w1 = (resp, w2)"
    by (simp add: http_send_def w2_def resp_def)
  have t2: "trace w2 = trace w1 @ [EvRequest method endpoint tok body]"
    by (simp add: w2_def http_send_def)
  have stop: "snd (request E method endpoint body w) = w2 \<or>
      (\<exists>e w3. get_token E False (clear_cache w2) = (Inl e, w3) \<and>
          snd (request E method endpoint body w) = w3) \<or>
      (\<exists>tok' w3. get_token E False (clear_cache w2) = (Inr tok', w3) \<and>
          snd (request E method endpoint body w) = snd (http_send E method endpoint tok' body w3))"
    unfolding request_def assms prod.case sum.case s1
    by (auto simp: Let_def split: response.splits option.splits sum.splits prod.splits)
  have c: "\<exists>es. trace (snd (get_token E False (clear_cache w2))) =
      trace w1 @ EvRequest method endpoint tok body # es"
    using get_token_trace_ext[of E False "clear_cache w2"] t2 by (auto simp: clear_cache_def)
  from stop show ?thesis
  proof (elim disjE exE conjE)
    assume "snd (request E method endpoint body w) = w2"
    with t2 show ?thesis by simp
  next
    fix e w3
    assume "get_token E False (clear_cache w2) = (Inl e, w3)"
      "snd (request E method endpoint body w) = w3"
    with c show ?thesis by auto
  next
    fix tok' w3
    assume a: "get_token E False (clear_cache w2) = (Inr tok', w3)"
      "snd (request E method endpoint body w) = snd (http_send E method endpoint tok' body w3)"
    with c obtain es where "trace w3 = trace w1 @ EvRequest method endpoint tok body # es" by auto
    with a(2) show ?thesis by (simp add: http_send_def)
  qed
qed

lemma add_draft_body_state:
  "snd (add_draft_body E d w) = snd (request E ''post'' ''/draft/add'' (Some (draft_payload d)) w)"
  by (simp add: add_draft_body_def split: prod.splits sum.splits)

text \<open>
  Claim C8. In the article dictionary built by \<open>add_draft\<close>, each of the keys \<open>author\<close>,
  \<open>digest\<close>, \<open>content_source_url\<close> and \<open>thumb_media_id\<close> is present exactly when its value is
  not empty, and then carries that value; \<open>need_open_comment\<close> and \<open>only_fans_can_comment\<close>
  are present for every input; no key occurs twice. Once a token is obtained, the request
  that follows is the POST to \<open>/draft/add\<close> whose JSON body holds this dictionary as the one
  element of \<open>articles\<close>.
\<close>

theorem draft_article_fields:
  "map_of (draft_article d) ''author'' = (if author d \<noteq> [] then Some (JStr (author d)) else None) \<and>
   map_of (draft_article d) ''digest'' = (if digest d \<noteq> [] then Some (JStr (digest d)) else None) \<and>
   map_of (draft_article d) ''content_source_url'' =
     (if content_source_url d \<noteq> [] then Some (JStr (content_source_url d)) else None) \<and>
   map_of (draft_article d) ''thumb_media_id'' =
     (if thumb_media_id d \<noteq> [] then Some (JStr (thumb_media_id d)) else None) \<and>
   map_of (draft_article d) ''need_open_comment'' = Some (JInt (need_open_comment d)) \<and>
   map_of (draft_article d) ''only_fans_can_comment'' = Some (JInt (only_fans_can_comment d)) \<and>
   distinct (map fst (draft_article d)) \<and>
   (\<forall>tok w1. get_token E False w = (Inr tok, w1) \<longrightarrow>
      trace (snd (add_draft_body E d w)) ! length (trace w1) =
        EvRequest ''post'' ''/draft/add'' tok
          (Some (JObj [(''articles'', JArr [JObj (draft_article d)])])))"
proof -
  have sent: "trace (snd (add_draft_body E d w)) ! length (trace w1) =
        EvRequest ''post'' ''/draft/add'' tok
          (Some (JObj [(''articles'', JArr [JObj (draft_article d)])]))"
    if "get_token E False w = (Inr tok, w1)" for tok w1
  proof -
    from request_sends_body[OF that, of "''post''" "''/draft/add''" "Some (draft_payload d)"]
    obtain es where "trace (snd (add_draft_body E d w)) =
        trace w1 @ EvRequest ''post'' ''/draft/add'' tok (Some (draft_payload d)) # es"
      unfolding add_draft_body_state by blast
    then show ?thesis by (simp add: draft_payload_def)
  qed
  have fields: "map_of (draft_article d) ''author'' = (if author d \<noteq> [] then Some (JStr (author d)) else None) \<and>
   map_of (draft_article d) ''digest'' = (if digest d \<noteq> [] then Some (JStr (digest d)) else None) \<and>
   map_of (draft_article d) ''content_source_url'' =
     (if content_source_url d \<noteq> [] then Some (JStr (content_source_url d)) else None) \<and>
   map_of (draft_article d) ''thumb_media_id'' =
     (if thumb_media_id d \<noteq> [] then Some (JStr (thumb_media_id d)) else None) \<and>
   map_of (draft_article d) ''need_open_comment'' = Some (JInt (need_open_comment d)) \<and>
   map_of (draft_article d) ''only_fans_can_comment'' = Some (JInt (only_fans_can_comment d)) \<and>
   distinct (map fst (draft_article d))"
    by (simp add: draft_article_def)
  from fields sent show ?thesis by blast
qed

subsection \<open>Attribute scrub\<close>

lemma scrub_attrs_no_id: "\<not> has_key ''id'' (scrub_attrs name a)"
  by (auto simp: scrub_attrs_def has_key_def del_key_def Let_def)

lemma scrub_attrs_class: "has_key ''class'' (scrub_attrs name a) \<Longrightarrow> name = ''code''"
  by (auto simp: scrub_attrs_def has_key_def del_key_def Let_def split: if_splits)

lemma map_of_del_key: "k' \<noteq> k \<Longrightarrow> map_of (del_key k a) k' = map_of a k'"
  by (induction a) (auto simp: del_key_def)

lemma del_key_absent: "\<not> has_key k a \<Longrightarrow> del_key k a = a"
  by (induction a) (auto simp: del_key_def has_key_def)

lemma scrub_attrs_code: "scrub_attrs ''code'' a = del_key ''id'' a"
  by (auto simp: scrub_attrs_def Let_def del_key_absent)

lemma tags_of_clean:
  "tags_of (clean_node n) = map (\<lambda>(name, a). (name, scrub_attrs name a)) (tags_of n)"
  by (induction n) (auto simp: map_concat intro: arg_cong[where f=concat])

lemma all_tags_clean:
  "all_tags (clean_soup soup) = map (\<lambda>(name, a). (name, scrub_attrs name a)) (all_tags soup)"
  by (induction soup) (auto simp: all_tags_def clean_soup_def tags_of_clean)

text \<open>
  Claim C3, amended. After the attribute scrub no tag carries an \<open>id\<close> attribute, and no tag
  other than a \<open>code\<close> tag carries a \<open>class\<close> attribute. The scrub gives every tag the
  attributes \<open>scrub_attrs\<close> computes from its name and its attributes; on a \<open>code\<close> tag
  that removes \<open>id\<close> only, so a \<open>code\<close> tag keeps the \<open>class\<close> attribute it had, whatever its
  value.
\<close>

theorem clean_soup_attributes:
  "(\<forall>(name, a) \<in> set (all_tags (clean_soup soup)).
      \<not> has_key ''id'' a \<and> (has_key ''class'' a \<longrightarrow> name = ''code'')) \<and>
   all_tags (clean_soup soup) = map (\<lambda>(name, a). (name, scrub_attrs name a)) (all_tags soup) \<and>
   (\<forall>a. scrub_attrs ''code'' a = del_key ''id'' a \<and>
        map_of (scrub_attrs ''code'' a) ''class'' = map_of a ''class'')"
proof -
  have 1: "\<forall>(name, a) \<in> set (all_tags (clean_soup soup)).
      \<not> has_key ''id'' a \<and> (has_key ''class'' a \<longrightarrow> name = ''code'')"
    unfolding all_tags_clean using scrub_attrs_no_id scrub_attrs_class by auto
  have 3: "\<forall>a. scrub_attrs ''code'' a = del_key ''id'' a \<and>
        map_of (scrub_attrs ''code'' a) ''class'' = map_of a ''class''"
    by (simp add: scrub_attrs_code map_of_del_key)
  from 1 all_tags_clean 3 show ?thesis by blast
qed

subsection \<open>Image resolver and uploader\<close>

lemma process_imgs_append:
  assumes "process_imgs E F b rm xs p = ((tx, sx, fx), p1)"
    and "process_imgs E F b rm ys p1 = ((ty, sy, fy), p2)"
  shows "process_imgs E F b rm (xs @ ys) p = ((tx @ ty, sx @ sy, fx @ fy), p2)"
  using assms
proof (induction xs arbitrary: p tx sx fx)
  case Nil
  then show ?case by simp
next
  case (Cons x xs)
  obtain r q where s: "process_img E F b rm x p = (r, q)" by (cases "process_img E F b rm x p")
  obtain t' s' f' q' where rest: "process_imgs E F b rm xs q = ((t', s', f'), q')"
    by (metis prod_cases3 surj_pair)
  with Cons.prems(1) s have eq: "tx = tag r # t'" "sx = succeeded r @ s'" "fx = failed r @ f'" "p1 = q'"
    by simp_all
  from rest eq(4) have rest': "process_imgs E F b rm xs q = ((t', s', f'), p1)" by simp
  from Cons.IH[OF rest'] Cons.prems(2)
  have "process_imgs E F b rm (xs @ ys) q = ((t' @ ty, s' @ sy, f' @ fy), p2)" by simp
  with s eq show ?case by simp
qed

lemma process_imgs_Cons:
  assumes "process_img E F b rm img p = (r, p1)"
    and "process_imgs E F b rm ys p1 = ((ty, sy, fy), p2)"
  shows "process_imgs E F b rm (img # ys) p = ((tag r # ty, succeeded r @ sy, failed r @ fy), p2)"
  using assms by simp

lemma edit_kept:
  "length ts = length (find_all_img n) \<Longrightarrow>
     snd (edit_node n (ts @ rest)) = rest \<and>
     concat (map find_all_img (fst (edit_node n (ts @ rest)))) = kept ts"
  "length ts = length (concat (map find_all_img ns)) \<Longrightarrow>
     snd (edit_nodes ns (ts @ rest)) = rest \<and>
     concat (map find_all_img (fst (edit_nodes ns (ts @ rest)))) = kept ts"
proof (induction n "ts @ rest" and ns "ts @ rest" arbitrary: ts rest and ts rest
    rule: edit_node_edit_nodes.induct)
  case (1 t)
  then show ?case by (simp add: kept_def)
next
  case (2 a)
  then obtain d where "ts = [d]" by (cases ts) auto
  then show ?case by (cases d) (simp_all add: kept_def)
next
  case (3 name a children)
  from 3(1)[OF refl] 3(2) show ?case by (cases "edit_nodes children (ts @ rest)") simp
next
  case 4
  then show ?case by (simp add: kept_def)
next
  case (5 x xs)
  define k where "k = length (find_all_img x)"
  have ts: "ts = take k ts @ drop k ts" by simp
  have lk: "length (take k ts) = length (find_all_img x)" using 5(3) by (simp add: k_def)
  have ld: "length (drop k ts) = length (concat (map find_all_img xs))"
    using 5(3) by (simp add: k_def)
  have a: "take k ts @ (drop k ts @ rest) = ts @ rest" by simp
  from 5(1)[of "take k ts" "drop k ts @ rest"] a lk
  have h1: "snd (edit_node x (ts @ rest)) = drop k ts @ rest"
    "concat (map find_all_img (fst (edit_node x (ts @ rest)))) = kept (take k ts)" by simp_all
  obtain x' r1 where e1: "edit_node x (ts @ rest) = (x', r1)" by (cases "edit_node x (ts @ rest)")
  with h1 have r1: "r1 = drop k ts @ rest" and kx: "concat (map find_all_img x') = kept (take k ts)"
    by simp_all
  from e1 r1 have e1': "(x', drop k ts @ rest) = edit_node x (ts @ rest)" by simp
  from 5(2)[OF e1' ld]
  have h2: "snd (edit_nodes xs (drop k ts @ rest)) = rest"
    "concat (map find_all_img (fst (edit_nodes xs (drop k ts @ rest)))) = kept (drop k ts)"
    by simp_all
  have "kept ts = kept (take k ts) @ kept (drop k ts)"
    unfolding kept_def by (subst ts) (simp only: map_append concat_append)
  with e1 r1 kx h2 show ?case
    by (cases "edit_nodes xs (drop k ts @ rest)") simp
qed

lemma process_img_empty:
  "src_of img = [] \<Longrightarrow>
   process_img E F b rm img p = (\<lparr>tag = Some img, succeeded = [], failed = []\<rparr>, p)"
  by (simp add: process_img_def)




lemma process_img_entries:
  assumes "process_img E F b rm img p = (r, q)"
  shows "[] \<notin> set (succeeded r) \<and> [] \<notin> set (failed r)"
proof -
  have "r = \<lparr>tag = Some img, succeeded = [], failed = []\<rparr> \<or>
        (src_of img \<noteq> [] \<and> (r = failure rm img (src_of img) \<or>
           (\<exists>a. r = \<lparr>tag = Some a, succeeded = [src_of img], failed = []\<rparr>)))"
    using assms
    by (auto simp: process_img_def Let_def split: if_splits prod.splits option.splits sum.splits)
  then show ?thesis by (auto simp: failure_def)
qed

lemma process_imgs_entries:
  "process_imgs E F b rm imgs p = ((ts, ss, fs), q) \<Longrightarrow> [] \<notin> set ss \<and> [] \<notin> set fs"
proof (induction imgs arbitrary: p ts ss fs q)
  case Nil
  then show ?case by simp
next
  case (Cons x xs)
  obtain r p1 where s: "process_img E F b rm x p = (r, p1)" by (cases "process_img E F b rm x p")
  obtain t' s' f' q' where rest: "process_imgs E F b rm xs p1 = ((t', s', f'), q')"
    by (metis prod_cases3 surj_pair)
  from Cons.prems s rest have "ss = succeeded r @ s'" "fs = failed r @ f'" by simp_all
  with process_img_entries[OF s] Cons.IH[OF rest] show ?case by simp
qed

lemma process_imgs_length:
  "process_imgs E F b rm imgs p = ((ts, ss, fs), q) \<Longrightarrow> length ts = length imgs"
proof (induction imgs arbitrary: p ts ss fs q)
  case Nil
  then show ?case by simp
next
  case (Cons x xs)
  obtain r p1 where s: "process_img E F b rm x p = (r, p1)" by (cases "process_img E F b rm x p")
  obtain t' s' f' q' where rest: "process_imgs E F b rm xs p1 = ((t', s', f'), q')"
    by (metis prod_cases3 surj_pair)
  from Cons.prems s rest have "ts = tag r # t'" by simp
  with Cons.IH[OF rest] show ?case by simp
qed

lemma edit_nodes_kept:
  assumes "length ts = length (find_all_imgs soup)"
  shows "find_all_imgs (fst (edit_nodes soup ts)) = kept ts"
  using edit_kept(2)[of ts soup "[]"] assms by (simp add: find_all_imgs_def)

lemma kept_append: "kept (a @ b) = kept a @ kept b"
  by (simp add: kept_def)

lemma edit_same:
  "edit_node n (map Some (find_all_img n) @ rest) = ([n], rest)"
  "edit_nodes ns (map Some (concat (map find_all_img ns)) @ rest) = (ns, rest)"
proof (induction n "map Some (find_all_img n) @ rest"
    and ns "map Some (concat (map find_all_img ns)) @ rest" arbitrary: rest and rest
    rule: edit_node_edit_nodes.induct)
  case (1 t)
  then show ?case by simp
next
  case (2 a)
  then show ?case by simp
next
  case (3 name a children)
  have "map Some (find_all_img (Element name a children)) @ rest =
      map Some (concat (map find_all_img children)) @ rest" by simp
  from 3(1)[OF this] show ?case by simp
next
  case 4
  then show ?case by simp
next
  case (5 x xs)
  have a: "map Some (concat (map find_all_img (x # xs))) @ rest =
      map Some (find_all_img x) @ (map Some (concat (map find_all_img xs)) @ rest)" by simp
  from 5(1)[of "map Some (concat (map find_all_img xs)) @ rest"] a
  have e1: "edit_node x (map Some (concat (map find_all_img (x # xs))) @ rest) =
      ([x], map Some (concat (map find_all_img xs)) @ rest)" by simp
  from 5(2)[OF e1[symmetric]]
  have "edit_nodes xs (map Some (concat (map find_all_img xs)) @ rest) = (xs, rest)" .
  with e1 show ?case by simp
qed

lemma run_three:
  assumes "process_imgs E F b rm xs p = ((tx, sx, fx), p1)"
    and "process_img E F b rm img p1 = (r, p1')"
    and "process_imgs E F b rm ys p1' = ((ty, sy, fy), p2)"
  shows "process_imgs E F b rm (xs @ img # ys) p =
           ((tx @ tag r # ty, sx @ succeeded r @ sy, fx @ failed r @ fy), p2)"
  using process_imgs_append[OF assms(1) process_imgs_Cons[OF assms(2,3)]] .


text \<open>
  Claim C10. Let the images of the soup be \<open>xs\<close>, then \<open>img\<close>, then \<open>ys\<close>, where \<open>img\<close> has no
  \<open>src\<close> attribute or an empty one. The turn for \<open>img\<close> keeps the tag with the attributes it
  had, appends nothing to either list and leaves the processor as it was; the returned soup
  holds \<open>img\<close> unchanged at its place among the images that were kept; no entry of the success
  list or of the failure list is the empty string; and when every other image is kept as it
  was too, the returned soup is the soup given.
\<close>

theorem process_html_skips_empty_src:
  assumes "process_imgs E F base_path remove_failed xs p = ((tx, sx, fx), p1)"
    and "process_img E F base_path remove_failed img p1 = (r, p1')"
    and "process_imgs E F base_path remove_failed ys p1' = ((ty, sy, fy), p2)"
    and "find_all_imgs soup = xs @ img # ys"
    and "src_of img = []"
  shows "r = \<lparr>tag = Some img, succeeded = [], failed = []\<rparr> \<and> p1' = p1 \<and>
         process_soup E F soup base_path remove_failed p =
           ((fst (edit_nodes soup (tx @ Some img # ty)), sx @ sy, fx @ fy), p2) \<and>
         find_all_imgs (fst (edit_nodes soup (tx @ Some img # ty))) = kept tx @ img # kept ty \<and>
         [] \<notin> set (sx @ sy) \<and> [] \<notin> set (fx @ fy) \<and>
         (tx = map Some xs \<and> ty = map Some ys \<longrightarrow>
            fst (edit_nodes soup (tx @ Some img # ty)) = soup)"
proof -
  from process_img_empty[OF assms(5), of E F base_path remove_failed p1] assms(2)
  have rp: "r = \<lparr>tag = Some img, succeeded = [], failed = []\<rparr>" "p1' = p1" by simp_all
  have run: "process_imgs E F base_path remove_failed (find_all_imgs soup) p =
           ((tx @ tag r # ty, sx @ succeeded r @ sy, fx @ failed r @ fy), p2)"
    unfolding assms(4) using assms(1,2,3) by (rule run_three)
  then have run': "process_imgs E F base_path remove_failed (find_all_imgs soup) p =
           ((tx @ Some img # ty, sx @ sy, fx @ fy), p2)" using rp by simp
  have c3: "process_soup E F soup base_path remove_failed p =
           ((fst (edit_nodes soup (tx @ Some img # ty)), sx @ sy, fx @ fy), p2)"
    by (simp add: process_soup_def run')
  have "length (tx @ Some img # ty) = length (find_all_imgs soup)"
    using process_imgs_length[OF run'] .
  then have c4: "find_all_imgs (fst (edit_nodes soup (tx @ Some img # ty))) =
      kept tx @ img # kept ty"
    using edit_nodes_kept[of "tx @ Some img # ty" soup] by (simp add: kept_def)
  have c5: "[] \<notin> set (sx @ sy) \<and> [] \<notin> set (fx @ fy)"
    using process_imgs_entries[OF run'] .
  have c6: "fst (edit_nodes soup (tx @ Some img # ty)) = soup"
    if "tx = map Some xs \<and> ty = map Some ys"
  proof -
    from that assms(4) have "tx @ Some img # ty = map Some (concat (map find_all_img soup)) @ []"
      by (simp add: find_all_imgs_def)
    then show ?thesis using edit_same(2)[of soup "[]"] by simp
  qed
  from rp c3 c4 c5 c6 show ?thesis by blast
qed

subsection \<open>Conversion pipeline\<close>





subsection \<open>Concrete runs\<close>

lemmas example_defs = example_env_def token_reply_def error_reply_def empty_reply_def
  fresh_world_def expired_world_def

lemmas token_defs = get_token_def get_token_cached_def fetch_token_def save_token_def
  time_time_def py_int_def get_default_def network_error_def clear_cache_def



theorem get_token_expiry_witness:
  "get_token (example_env (token_reply ''T'' 7200) (error_reply 0 ''ok'')) False fresh_world =
     (Inr ''T'',
      fresh_world\<lparr>tm_access_token := Some ''T'', tm_expires_at := 7900,
                  token_file := Some \<lparr>td_access_token = ''T'', td_expires_at = 7900,
                                        td_appid = Some ''wx1''\<rparr>,
                  clock_reads := 2, exchanges := 1, trace := [EvExchange]\<rparr>) \<and>
   token_result_ok (example_env (token_reply ''T'' 7200) (error_reply 0 ''ok'')) fresh_world
     (fresh_world\<lparr>tm_access_token := Some ''T'', tm_expires_at := 7900,
                  token_file := Some \<lparr>td_access_token = ''T'', td_expires_at = 7900,
                                        td_appid = Some ''wx1''\<rparr>,
                  clock_reads := 2, exchanges := 1, trace := [EvExchange]\<rparr>) ''T''"
proof -
  let ?E = "example_env (token_reply ''T'' 7200) (error_reply 0 ''ok'')"
  have r: "get_token ?E False fresh_world =
     (Inr ''T'',
      fresh_world\<lparr>tm_access_token := Some ''T'', tm_expires_at := 7900,
                  token_file := Some \<lparr>td_access_token = ''T'', td_expires_at = 7900,
                                        td_appid = Some ''wx1''\<rparr>,
                  clock_reads := 2, exchanges := 1, trace := [EvExchange]\<rparr>)"
    by (simp add: example_defs token_defs)
  from get_token_expiry[OF r] r show ?thesis by simp
qed

text \<open>
  The claim C7 as stated has every returned token satisfy \<open>now < expires_at\<close>. When the server
  reports a lifetime of 100 seconds at time 1000, the token is returned with \<open>expires_at = 800\<close>.
\<close>

theorem get_token_short_lifetime:
  "fst (get_token (example_env (token_reply ''T'' 100) (error_reply 0 ''ok'')) False fresh_world)
     = Inr ''T'' \<and>
   tm_expires_at (snd (get_token (example_env (token_reply ''T'' 100) (error_reply 0 ''ok''))
     False fresh_world)) = 800 \<and>
   clock (example_env (token_reply ''T'' 100) (error_reply 0 ''ok'')) 0 = 1000"
  by (simp add: example_defs token_defs)

theorem retry_on_error_policy_witness:
  "fst (upload_image (example_env (token_reply ''T'' 7200) (error_reply 45009 ''busy'')) ''p.png''
         fresh_world) = Inl (WeChatAPIError 45009 ''busy'') \<and>
   trace (snd (upload_image (example_env (token_reply ''T'' 7200) (error_reply 45009 ''busy''))
         ''p.png'' fresh_world)) =
     [EvExchange, EvUpload ''T'' ''p.png'', EvSleep (5 / 4), EvUpload ''T'' ''p.png'',
      EvSleep (9 / 4), EvUpload ''T'' ''p.png'', EvSleep (17 / 4), EvUpload ''T'' ''p.png'']"
proof -
  let ?E = "example_env (token_reply ''T'' 7200) (error_reply 45009 ''busy'')"
  let ?f = "upload_image_body ?E ''p.png''"
  have h0: "retried 3 [40001, 42001, 45009] 0 (fst (?f (attempt_world ?E 1 ?f 0 fresh_world)))"
    by code_simp
  have h1: "retried 3 [40001, 42001, 45009] 1 (fst (?f (attempt_world ?E 1 ?f 1 fresh_world)))"
    by code_simp
  have h2: "retried 3 [40001, 42001, 45009] 2 (fst (?f (attempt_world ?E 1 ?f 2 fresh_world)))"
    by code_simp
  have h3: "\<not> retried 3 [40001, 42001, 45009] 3 (fst (?f (attempt_world ?E 1 ?f 3 fresh_world)))"
    by code_simp
  have all: "\<forall>i<3. retried 3 [40001, 42001, 45009] i (fst (?f (attempt_world ?E 1 ?f i fresh_world)))"
  proof (intro allI impI)
    fix i :: nat
    assume "i < 3"
    then have "i = 0 \<or> i = 1 \<or> i = 2" by arith
    then show "retried 3 [40001, 42001, 45009] i (fst (?f (attempt_world ?E 1 ?f i fresh_world)))"
      using h0 h1 h2 by blast
  qed
  have r: "fst (?f (attempt_world ?E 1 ?f 3 fresh_world)) = Inl (WeChatAPIError 45009 ''busy'')"
    by code_simp
  have t: "trace (snd (?f (attempt_world ?E 1 ?f 3 fresh_world))) =
     [EvExchange, EvUpload ''T'' ''p.png'', EvSleep (5 / 4), EvUpload ''T'' ''p.png'',
      EvSleep (9 / 4), EvUpload ''T'' ''p.png'', EvSleep (17 / 4), EvUpload ''T'' ''p.png'']"
    by code_simp
  from retry_on_error_policy[of 3 3 "[40001, 42001, 45009]" ?f ?E 1 fresh_world, OF _ all h3]
  have "upload_image ?E ''p.png'' fresh_world = ?f (attempt_world ?E 1 ?f 3 fresh_world)"
    by (simp add: upload_image_def)
  with r t show ?thesis by simp
qed

theorem request_refreshes_once_witness:
  "get_token (example_env (token_reply ''T'' 7200) (error_reply 40001 ''invalid credential''))
     False fresh_world =
     (Inr ''T'',
      fresh_world\<lparr>tm_access_token := Some ''T'', tm_expires_at := 7900,
                  token_file := Some \<lparr>td_access_token = ''T'', td_expires_at = 7900,
                                        td_appid = Some ''wx1''\<rparr>,
                  clock_reads := 2, exchanges := 1, trace := [EvExchange]\<rparr>) \<and>
   trace (snd (request (example_env (token_reply ''T'' 7200) (error_reply 40001 ''invalid credential''))
     ''get'' ''/draft/count'' None fresh_world)) =
     [EvExchange, EvRequest ''get'' ''/draft/count'' ''T'' None, EvClear, EvExchange,
      EvRequest ''get'' ''/draft/count'' ''T'' None] \<and>
   fst (request (example_env (token_reply ''T'' 7200) (error_reply 40001 ''invalid credential''))
     ''get'' ''/draft/count'' None fresh_world) = Inl (WeChatAPIError 40001 ''invalid credential'')"
proof -
  let ?E = "example_env (token_reply ''T'' 7200) (error_reply 40001 ''invalid credential'')"
  let ?w1 = "fresh_world\<lparr>tm_access_token := Some ''T'', tm_expires_at := 7900,
                  token_file := Some \<lparr>td_access_token = ''T'', td_expires_at = 7900,
                                        td_appid = Some ''wx1''\<rparr>,
                  clock_reads := 2, exchanges := 1, trace := [EvExchange]\<rparr>"
  have g: "get_token ?E False fresh_world = (Inr ''T'', ?w1)" by code_simp
  have a: "api_endpoint ?E (api_calls ?w1) =
      Http None (empty_reply\<lparr>r_errcode := Some 40001, r_errmsg := Some ''invalid credential''\<rparr>)"
    by (simp add: example_env_def error_reply_def)
  have c: "r_errcode (empty_reply\<lparr>r_errcode := Some 40001, r_errmsg := Some ''invalid credential''\<rparr>)
      = Some 40001" by simp
  have gr: "granted ?E ?w1 ''T''"
    by (simp add: granted_def example_env_def token_reply_def empty_reply_def)
  have so: "second_outcome (api_endpoint ?E (Suc (api_calls ?w1))) =
      Inl (WeChatAPIError 40001 ''invalid credential'')"
    by (simp add: second_outcome_def example_env_def error_reply_def empty_reply_def
        get_default_def api_error_def)
  have tr: "trace ?w1 = [EvExchange]" by (simp add: fresh_world_def)
  from request_refreshes_once[OF g a c, of "''get''" "''/draft/count''" None] gr so tr g
  show ?thesis by simp
qed

text \<open>
  The claim C2 as stated has every operation invalidate the token once and retry once on code
  40001. Against an API that answers 40001 to every call, \<open>add_draft\<close> sends eight requests
  and clears the token cache seven times, and \<open>upload_image\<close> sends four and clears three
  times, each time after the wait of the retry policy.
\<close>

theorem decorated_operations_retry_40001:
  "fst (add_draft (example_env (token_reply ''T'' 7200) (error_reply 40001 ''invalid credential''))
         example_draft fresh_world) = Inl (WeChatAPIError 40001 ''invalid credential'') \<and>
   api_calls (snd (add_draft (example_env (token_reply ''T'' 7200)
         (error_reply 40001 ''invalid credential'')) example_draft fresh_world)) = 8 \<and>
   length (filter (\<lambda>e. e = EvClear) (trace (snd (add_draft (example_env (token_reply ''T'' 7200)
         (error_reply 40001 ''invalid credential'')) example_draft fresh_world)))) = 7 \<and>
   trace (snd (upload_image (example_env (token_reply ''T'' 7200)
         (error_reply 40001 ''invalid credential'')) ''p.png'' fresh_world)) =
     [EvExchange, EvUpload ''T'' ''p.png'', EvSleep (5 / 4), EvClear,
      EvExchange, EvUpload ''T'' ''p.png'', EvSleep (9 / 4), EvClear,
      EvExchange, EvUpload ''T'' ''p.png'', EvSleep (17 / 4), EvClear,
      EvExchange, EvUpload ''T'' ''p.png'']"
  by code_simp

lemmas image_defs = process_img_def resolve_image_path_def full_path_def is_url_def
  src_of_def failure_def uploadable_def missing_locally_def startswith_def
  example_files_def example_processor_def example_soup_def find_all_imgs_def kept_def

theorem clean_soup_attributes_witness:
  "all_tags (clean_soup
      [Element ''h1'' [(''id'', AStr ''title'')]
         [Element ''code'' [(''class'', AList [''language-x''])] [Text ''y'']],
       Element ''div'' [(''class'', AList [''highlight''])] []]) =
     [(''h1'', []), (''code'', [(''class'', AList [''language-x''])]), (''div'', [])]"
proof -
  let ?soup = "[Element ''h1'' [(''id'', AStr ''title'')]
         [Element ''code'' [(''class'', AList [''language-x''])] [Text ''y'']],
       Element ''div'' [(''class'', AList [''highlight''])] []]"
  have t: "all_tags ?soup = [(''h1'', [(''id'', AStr ''title'')]),
      (''code'', [(''class'', AList [''language-x''])]),
      (''div'', [(''class'', AList [''highlight''])])]" by (simp add: all_tags_def)
  from clean_soup_attributes[of ?soup] have
    "all_tags (clean_soup ?soup) = map (\<lambda>(name, a). (name, scrub_attrs name a)) (all_tags ?soup)"
    by blast
  then show ?thesis unfolding t
    by (simp add: scrub_attrs_def has_key_def del_key_def)
qed

text \<open>
  The claim C3 as stated lets a tag keep \<open>class\<close> only when it carries a language class. A
  \<open>code\<close> tag with the class \<open>foo\<close> keeps it.
\<close>

theorem clean_soup_keeps_other_class:
  "clean_soup [Element ''p'' [] [Element ''code'' [(''id'', AStr ''c''), (''class'', AList [''foo''])]
       [Text ''y'']]] =
     [Element ''p'' [] [Element ''code'' [(''class'', AList [''foo''])] [Text ''y'']]] \<and>
   has_key ''class'' [(''class'', AList [''foo''])] \<and>
   \<not> carries_language_class [(''class'', AList [''foo''])]"
  by (simp add: clean_soup_def scrub_attrs_def has_key_def del_key_def carries_language_class_def
      startswith_def)



theorem process_html_skips_empty_src_witness:
  "src_of [(''alt'', AStr ''no source'')] = [] \<and>
   fst (process_soup (example_env (token_reply ''T'' 7200) (error_reply 0 ''ok''))
          (example_files (\<lambda>path. False))
          [Img [(''src'', AStr '''')], Img [(''alt'', AStr ''no source'')]]
          None True example_processor) =
     ([Img [(''src'', AStr '''')], Img [(''alt'', AStr ''no source'')]], [], [])"
proof -
  let ?E = "example_env (token_reply ''T'' 7200) (error_reply 0 ''ok'')"
  let ?F = "example_files (\<lambda>path. False)"
  let ?x = "[(''src'', AStr '''')]"
  let ?img = "[(''alt'', AStr ''no source'')]"
  have s: "src_of ?img = []" by (simp add: src_of_def)
  have h1: "process_imgs ?E ?F None True [?x] example_processor =
      (([Some ?x], [], []), example_processor)"
    by (simp add: image_defs)
  have h2: "process_img ?E ?F None True ?img example_processor =
      (\<lparr>tag = Some ?img, succeeded = [], failed = []\<rparr>, example_processor)"
    by (simp add: image_defs)
  have h3: "process_imgs ?E ?F None True [] example_processor = (([], [], []), example_processor)"
    by simp
  have h4: "find_all_imgs [Img ?x, Img ?img] = [?x] @ ?img # []" by (simp add: image_defs)
  from process_html_skips_empty_src[OF h1 h2 h3 h4 s] s show ?thesis by simp
qed


theorem draft_article_fields_witness:
  "get_token (example_env (token_reply ''T'' 7200) (error_reply 0 ''ok'')) False fresh_world =
     (Inr ''T'',
      fresh_world\<lparr>tm_access_token := Some ''T'', tm_expires_at := 7900,
                  token_file := Some \<lparr>td_access_token = ''T'', td_expires_at = 7900,
                                        td_appid = Some ''wx1''\<rparr>,
                  clock_reads := 2, exchanges := 1, trace := [EvExchange]\<rparr>) \<and>
   trace (snd (add_draft_body (example_env (token_reply ''T'' 7200) (error_reply 0 ''ok''))
                 example_draft fresh_world)) ! 1 =
     EvRequest ''post'' ''/draft/add'' ''T''
       (Some (JObj [(''articles'', JArr [JObj
          [(''title'', JStr ''t''), (''content'', JStr ''<p>c</p>''), (''digest'', JStr ''d''),
           (''need_open_comment'', JInt 0), (''only_fans_can_comment'', JInt 0)]])]))"
proof -
  let ?E = "example_env (token_reply ''T'' 7200) (error_reply 0 ''ok'')"
  let ?w1 = "fresh_world\<lparr>tm_access_token := Some ''T'', tm_expires_at := 7900,
                  token_file := Some \<lparr>td_access_token = ''T'', td_expires_at = 7900,
                                        td_appid = Some ''wx1''\<rparr>,
                  clock_reads := 2, exchanges := 1, trace := [EvExchange]\<rparr>"
  have g: "get_token ?E False fresh_world = (Inr ''T'', ?w1)"
    by (simp add: example_defs token_defs)
  have a: "draft_article example_draft =
      [(''title'', JStr ''t''), (''content'', JStr ''<p>c</p>''), (''digest'', JStr ''d''),
       (''need_open_comment'', JInt 0), (''only_fans_can_comment'', JInt 0)]"
    by (simp add: draft_article_def example_draft_def)
  have l: "length (trace ?w1) = 1" by (simp add: fresh_world_def)
  from draft_article_fields[of example_draft ?E fresh_world] g a l show ?thesis by simp
qed

end
